theory Spec2Isabelle
  imports Complex_Main "HOL-Library.AList"
begin

section \<open>Python values and the built-ins the program calls\<close>

text \<open>
  The program is a single Python module, \<^verbatim>\<open>planetastic.py\<close>. Its dictionaries hold
  values of mixed type: a field of a parsed SBS-1 message is \<^verbatim>\<open>None\<close>, a \<^verbatim>\<open>str\<close>,
  an \<^verbatim>\<open>int\<close>, a \<^verbatim>\<open>float\<close> or a \<^verbatim>\<open>bool\<close>. The type of floats is a parameter
  \<open>'f\<close>: nothing below depends on how a float is represented.
\<close>

datatype error = ValueError | TypeError | AttributeError | OverflowError

datatype 'f pyval = PNone | PStr string | PInt int | PFloat 'f | PBool bool

text \<open>
  The built-in functions of Python that the module calls on strings and floats are taken
  as parameters, collected in one record:
  \<^item> \<open>py_int s\<close> is \<^verbatim>\<open>int(s)\<close> for a string \<open>s\<close>, \<open>None\<close> when it raises \<^verbatim>\<open>ValueError\<close>;
  \<^item> \<open>py_float s\<close> is \<^verbatim>\<open>float(s)\<close> for a string \<open>s\<close>, \<open>None\<close> when it raises \<^verbatim>\<open>ValueError\<close>;
  \<^item> \<open>float_truthy x\<close> is \<^verbatim>\<open>bool(x)\<close> for a float \<open>x\<close>;
  \<^item> \<open>float_of_int i\<close> is \<^verbatim>\<open>float(i)\<close> for an integer \<open>i\<close>, \<open>None\<close> when it raises
    \<^verbatim>\<open>OverflowError\<close>;
  \<^item> \<open>float_zero\<close> is the literal \<^verbatim>\<open>0.0\<close>;
  \<^item> \<open>float_abs_2f x\<close> is \<^verbatim>\<open>f"{abs(x):.2f}"\<close>;
  \<^item> \<open>float_nonneg x\<close> is \<^verbatim>\<open>x >= 0\<close>;
  \<^item> \<open>float_str x\<close> is \<^verbatim>\<open>str(x)\<close> for a float \<open>x\<close>;
  \<^item> \<open>float_sub x y\<close> is \<^verbatim>\<open>x - y\<close> for two floats, rounded as Python rounds it;
  \<^item> \<open>float_gt_int x i\<close> is \<^verbatim>\<open>x > i\<close> for a float \<open>x\<close> and an integer \<open>i\<close>.
\<close>

record 'f builtins =
  py_int :: "string \<Rightarrow> int option"
  py_float :: "string \<Rightarrow> 'f option"
  float_truthy :: "'f \<Rightarrow> bool"
  float_of_int :: "int \<Rightarrow> 'f option"
  float_zero :: "'f"
  float_abs_2f :: "'f \<Rightarrow> string"
  float_nonneg :: "'f \<Rightarrow> bool"
  float_str :: "'f \<Rightarrow> string"
  float_sub :: "'f \<Rightarrow> 'f \<Rightarrow> 'f"
  float_gt_int :: "'f \<Rightarrow> int \<Rightarrow> bool"

text \<open>Truthiness of a value, as \<^verbatim>\<open>if v:\<close> tests it.\<close>

fun truthy :: "'f builtins \<Rightarrow> 'f pyval \<Rightarrow> bool" where
  "truthy B PNone = False"
| "truthy B (PStr s) = (s \<noteq> [])"
| "truthy B (PInt i) = (i \<noteq> 0)"
| "truthy B (PFloat x) = float_truthy B x"
| "truthy B (PBool b) = b"

text \<open>Truthiness of \<^verbatim>\<open>d.get(key)\<close>: a missing key gives \<^verbatim>\<open>None\<close>, which is falsy.\<close>

fun truthy_get :: "'f builtins \<Rightarrow> 'f pyval option \<Rightarrow> bool" where
  "truthy_get B None = False"
| "truthy_get B (Some v) = truthy B v"

subsection \<open>Strings\<close>

text \<open>
  A Python \<^verbatim>\<open>str\<close> is modelled as a \<open>string\<close> whose characters are code points below 256.
  \<open>is_space\<close> lists the code points in that range for which \<^verbatim>\<open>str.isspace\<close> holds:
  tab, line feed, vertical tab, form feed, carriage return, the four separators
  0x1C to 0x1F, the space, NEL (0x85) and the no-break space (0xA0).
\<close>

definition is_space :: "char \<Rightarrow> bool" where
  "is_space c = (c \<in> set [CHR 0x09, CHR 0x0A, CHR 0x0B, CHR 0x0C, CHR 0x0D,
                          CHR 0x1C, CHR 0x1D, CHR 0x1E, CHR 0x1F, CHR 0x20,
                          CHR 0x85, CHR 0xA0])"

text \<open>\<^verbatim>\<open>s.strip()\<close>: leading and trailing whitespace removed.\<close>

definition py_strip :: "string \<Rightarrow> string" where
  "py_strip s = rev (dropWhile is_space (rev (dropWhile is_space s)))"

text \<open>
  \<^verbatim>\<open>s.split(c)\<close> for a one-character separator: the pieces between the separators,
  empty pieces kept; the empty string splits into one empty piece. A character other than
  the separator joins the first piece of the rest, which always exists.
\<close>

fun split_on :: "char \<Rightarrow> string \<Rightarrow> string list" where
  "split_on c [] = [[]]"
| "split_on c (x # xs) =
     (if x = c then [] # split_on c xs
      else (case split_on c xs of
              [] \<Rightarrow> [[x]]
            | piece # pieces \<Rightarrow> (x # piece) # pieces))"

text \<open>
  \<^verbatim>\<open>str(i)\<close> for an integer: its decimal digits, with a minus sign when negative.
  \<open>show_digits\<close> is for a number that is not negative.
\<close>

function show_digits :: "int \<Rightarrow> string" where
  "show_digits n =
     (if n < 10 then [char_of (48 + n)]
      else show_digits (n div 10) @ [char_of (48 + n mod 10)])"
  by pat_completeness auto
termination
  by (relation "measure nat") simp_all

declare show_digits.simps [simp del]

definition show_int :: "int \<Rightarrow> string" where
  "show_int i = (if i < 0 then CHR ''-'' # show_digits (- i) else show_digits i)"

section \<open>The SBS-1 parser\<close>

definition SBS1_FIELDS :: "string list" where
  "SBS1_FIELDS =
     [''message_type'', ''transmission_type'', ''session_id'', ''aircraft_id'',
      ''hex_ident'', ''flight_id'', ''generated_date'', ''generated_time'',
      ''logged_date'', ''logged_time'', ''callsign'', ''altitude'',
      ''ground_speed'', ''track'', ''lat'', ''lon'', ''vertical_rate'',
      ''squawk'', ''alert'', ''emergency'', ''spi'', ''is_on_ground'']"

text \<open>
  A message dictionary is an association list in insertion order; \<open>map_of\<close> is the lookup
  and \<open>AList.update\<close> the assignment \<^verbatim>\<open>msg_data[key] = v\<close>, which keeps the position of
  a key that is already there.
\<close>

type_synonym 'f msg = "(string \<times> 'f pyval) list"

text \<open>
  One round of the first loop of \<^verbatim>\<open>parse_adsb_message\<close>:
  \<^verbatim>\<open>if msg_data.get(key): try: msg_data[key] = int(msg_data[key]) except (ValueError, TypeError): pass\<close>.
  When the loop reaches a key, its value is still the one the dictionary was built with,
  a non-empty \<^verbatim>\<open>str\<close> or \<^verbatim>\<open>None\<close>, since the three loops visit each key at most once.
  A falsy or missing value is skipped; a cast that raises leaves the dictionary as it is.
\<close>

definition cast_int :: "'f builtins \<Rightarrow> string \<Rightarrow> 'f msg \<Rightarrow> 'f msg" where
  "cast_int B key msg_data =
     (case map_of msg_data key of
        Some (PStr s) \<Rightarrow>
          (if s = [] then msg_data
           else (case py_int B s of
                   Some i \<Rightarrow> AList.update key (PInt i) msg_data
                 | None \<Rightarrow> msg_data))
      | _ \<Rightarrow> msg_data)"

text \<open>One round of the second loop, the same with \<^verbatim>\<open>float\<close>.\<close>

definition cast_float :: "'f builtins \<Rightarrow> string \<Rightarrow> 'f msg \<Rightarrow> 'f msg" where
  "cast_float B key msg_data =
     (case map_of msg_data key of
        Some (PStr s) \<Rightarrow>
          (if s = [] then msg_data
           else (case py_float B s of
                   Some x \<Rightarrow> AList.update key (PFloat x) msg_data
                 | None \<Rightarrow> msg_data))
      | _ \<Rightarrow> msg_data)"

text \<open>
  One round of the third loop:
  \<^verbatim>\<open>if msg_data.get(key): msg_data[key] = bool(int(msg_data[key]))\<close>.
  There is no \<^verbatim>\<open>try\<close> around it: when \<^verbatim>\<open>int\<close> raises, the exception leaves the function.
\<close>

definition cast_bool :: "'f builtins \<Rightarrow> string \<Rightarrow> 'f msg \<Rightarrow> error + 'f msg" where
  "cast_bool B key msg_data =
     (case map_of msg_data key of
        Some (PStr s) \<Rightarrow>
          (if s = [] then Inr msg_data
           else (case py_int B s of
                   Some i \<Rightarrow> Inr (AList.update key (PBool (i \<noteq> 0)) msg_data)
                 | None \<Rightarrow> Inl ValueError))
      | _ \<Rightarrow> Inr msg_data)"

fun cast_bools :: "'f builtins \<Rightarrow> string list \<Rightarrow> 'f msg \<Rightarrow> error + 'f msg" where
  "cast_bools B [] msg_data = Inr msg_data"
| "cast_bools B (key # keys) msg_data =
     (case cast_bool B key msg_data of
        Inl e \<Rightarrow> Inl e
      | Inr msg_data' \<Rightarrow> cast_bools B keys msg_data')"

text \<open>
  \<^verbatim>\<open>parse_adsb_message\<close>. The result is \<open>Inl e\<close> when the exception \<open>e\<close> leaves the
  function, \<open>Inr None\<close> when it returns \<^verbatim>\<open>None\<close> and \<open>Inr (Some d)\<close> when it returns the
  dictionary \<open>d\<close>.
\<close>

definition parse_adsb_message :: "'f builtins \<Rightarrow> string \<Rightarrow> error + 'f msg option" where
  "parse_adsb_message B message_str =
     (let parts = split_on CHR '','' (py_strip message_str) in
      if length parts = 22 \<and> hd parts = ''MSG'' then
        (let msg_data = zip SBS1_FIELDS (map (\<lambda>val. if val \<noteq> [] then PStr val else PNone) parts);
             msg_data = fold (cast_int B)
                          [''transmission_type'', ''altitude'', ''ground_speed'', ''track'',
                           ''vertical_rate'', ''squawk''] msg_data;
             msg_data = fold (cast_float B) [''lat'', ''lon''] msg_data
         in (case cast_bools B [''alert'', ''emergency'', ''spi'', ''is_on_ground''] msg_data of
               Inl e \<Rightarrow> Inl e
             | Inr msg_data \<Rightarrow> Inr (Some msg_data)))
      else Inr None)"

section \<open>The aircraft store and the dispatch policy\<close>

text \<open>
  An aircraft record (a value of \<^verbatim>\<open>aircraft_db\<close>) is only read by key, so it is a map.
  \<^verbatim>\<open>aircraft_db\<close> maps a \<^verbatim>\<open>hex_ident\<close> to its record and \<^verbatim>\<open>last_sent_time\<close> maps it to
  the time of its last dispatch. \<^verbatim>\<open>time.time()\<close> is an input of the model, and times are
  floats, as the clock returns them.
\<close>

type_synonym 'f aircraft = "string \<rightharpoonup> 'f pyval"

record 'f store =
  aircraft_db :: "string \<rightharpoonup> 'f aircraft"
  last_sent_time :: "string \<rightharpoonup> 'f"

text \<open>
  The part of \<^verbatim>\<open>args\<close> that \<^verbatim>\<open>process_adsb_message\<close> reads. \<open>meshtastic_interface\<close> says
  whether the interface object is set, \<open>send_text_message\<close> whether the import of the
  \<^verbatim>\<open>mudp\<close> package gave the module-level function of that name (it is \<^verbatim>\<open>None\<close> otherwise).
  The debug flag only controls log lines, which are not modelled.
\<close>

record args =
  meshtastic_interface :: bool
  mudp :: bool
  send_text_message :: bool
  update_interval :: int

text \<open>What the function sends or prints: one value per sink call.\<close>

datatype sent = SendText string | MudpText string | Simulated string

text \<open>
  The body of the merge loop,
  \<^verbatim>\<open>if value is not None and value != '': aircraft[key] = value\<close>, and the loop over
  \<^verbatim>\<open>parsed_data.items()\<close>.
\<close>

definition merge_item :: "'f aircraft \<Rightarrow> string \<times> 'f pyval \<Rightarrow> 'f aircraft" where
  "merge_item aircraft kv =
     (if snd kv \<noteq> PNone \<and> snd kv \<noteq> PStr [] then aircraft(fst kv \<mapsto> snd kv) else aircraft)"

definition merge_items :: "'f aircraft \<Rightarrow> 'f msg \<Rightarrow> 'f aircraft" where
  "merge_items aircraft parsed_data = fold (\<lambda>kv a. merge_item a kv) parsed_data aircraft"

text \<open>\<^verbatim>\<open>aircraft_db.get(hex_ident, {})\<close>.\<close>

definition get_or_create :: "(string \<rightharpoonup> 'f aircraft) \<Rightarrow> string \<Rightarrow> 'f aircraft" where
  "get_or_create db hex_ident = (case db hex_ident of None \<Rightarrow> Map.empty | Some a \<Rightarrow> a)"

text \<open>Lines 127 to 135: fetch or create the record, merge, store it back under the key.\<close>

definition store_merged ::
  "(string \<rightharpoonup> 'f aircraft) \<Rightarrow> string \<Rightarrow> 'f msg \<Rightarrow> (string \<rightharpoonup> 'f aircraft)" where
  "store_merged db hex_ident parsed_data =
     db(hex_ident \<mapsto> merge_items (get_or_create db hex_ident) parsed_data)"

text \<open>The test of line 138, \<^verbatim>\<open>aircraft.get('lat') and aircraft.get('callsign')\<close>.\<close>

definition reportable :: "'f builtins \<Rightarrow> 'f aircraft \<Rightarrow> bool" where
  "reportable B aircraft =
     (truthy_get B (aircraft ''lat'') \<and> truthy_get B (aircraft ''callsign''))"

text \<open>
  The rate limiter of lines 142 and 143:
  \<^verbatim>\<open>hex_ident not in last_sent_time or (current_time - last_sent_time[hex_ident]) > args.update_interval\<close>.
  The subtraction is the one of floats and the interval is an integer.
\<close>

definition rate_limit_passes ::
  "'f builtins \<Rightarrow> (string \<rightharpoonup> 'f) \<Rightarrow> string \<Rightarrow> 'f \<Rightarrow> int \<Rightarrow> bool" where
  "rate_limit_passes B lst hex_ident current_time interval =
     (case lst hex_ident of
        None \<Rightarrow> True
      | Some t \<Rightarrow> float_gt_int B (float_sub B current_time t) interval)"

subsection \<open>Formatting\<close>

text \<open>\<^verbatim>\<open>str(v)\<close>, as an f-string renders \<^verbatim>\<open>{altitude}\<close>.\<close>

fun py_str :: "'f builtins \<Rightarrow> 'f pyval \<Rightarrow> string" where
  "py_str B PNone = ''None''"
| "py_str B (PStr s) = s"
| "py_str B (PInt i) = show_int i"
| "py_str B (PFloat x) = float_str B x"
| "py_str B (PBool b) = (if b then ''True'' else ''False'')"

text \<open>
  The operand of \<^verbatim>\<open>abs(v)\<close>, \<^verbatim>\<open>:.2f\<close> and \<^verbatim>\<open>v >= 0\<close> as a float: these are defined on
  numbers and raise \<^verbatim>\<open>TypeError\<close> on a string and on \<^verbatim>\<open>None\<close>. The format \<^verbatim>\<open>:.2f\<close>
  converts an integer to a float, which raises \<^verbatim>\<open>OverflowError\<close> when it is too large.
\<close>

fun as_number :: "'f builtins \<Rightarrow> 'f pyval \<Rightarrow> error + 'f" where
  "as_number B (PFloat x) = Inr x"
| "as_number B (PInt i) =
     (case float_of_int B i of None \<Rightarrow> Inl OverflowError | Some x \<Rightarrow> Inr x)"
| "as_number B (PBool b) =
     (case float_of_int B (if b then 1 else 0) of None \<Rightarrow> Inl OverflowError | Some x \<Rightarrow> Inr x)"
| "as_number B (PStr s) = Inl TypeError"
| "as_number B PNone = Inl TypeError"

text \<open>\<^verbatim>\<open>aircraft_data.get('callsign', 'N/A').strip()\<close>: only a string has \<^verbatim>\<open>strip\<close>.\<close>

fun callsign_stripped :: "'f pyval option \<Rightarrow> error + string" where
  "callsign_stripped None = Inr (py_strip ''N/A'')"
| "callsign_stripped (Some (PStr s)) = Inr (py_strip s)"
| "callsign_stripped (Some v) = Inl AttributeError"

definition format_meshtastic_message :: "'f builtins \<Rightarrow> 'f aircraft \<Rightarrow> error + string" where
  "format_meshtastic_message B aircraft_data =
     (case callsign_stripped (aircraft_data ''callsign'') of
        Inl e \<Rightarrow> Inl e
      | Inr callsign \<Rightarrow>
          (let altitude = (case aircraft_data ''altitude'' of None \<Rightarrow> PInt 0 | Some v \<Rightarrow> v);
               lat = (case aircraft_data ''lat'' of None \<Rightarrow> PFloat (float_zero B) | Some v \<Rightarrow> v);
               lon = (case aircraft_data ''lon'' of None \<Rightarrow> PFloat (float_zero B) | Some v \<Rightarrow> v)
           in (case as_number B lat of
                 Inl e \<Rightarrow> Inl e
               | Inr la \<Rightarrow>
                   (let lat_str = float_abs_2f B la @ (if float_nonneg B la then ''N'' else ''S'')
                    in (case as_number B lon of
                          Inl e \<Rightarrow> Inl e
                        | Inr lo \<Rightarrow>
                            (let lon_str =
                                   float_abs_2f B lo @ (if float_nonneg B lo then ''E'' else ''W'')
                             in Inr (callsign @ '' '' @ py_str B altitude @ ''ft '' @
                                     lat_str @ ''/'' @ lon_str)))))))"

subsection \<open>Processing one message\<close>

text \<open>
  Lines 149 to 163: each active sink formats the aggregated record and sends the text; an
  exception of the formatter leaves the function. The sink calls themselves belong to
  other packages and are taken to return.
\<close>

definition send_to_sinks :: "'f builtins \<Rightarrow> args \<Rightarrow> 'f aircraft \<Rightarrow> error + sent list" where
  "send_to_sinks B a aggregated_data =
     (case (if meshtastic_interface a
            then (case format_meshtastic_message B aggregated_data of
                    Inl e \<Rightarrow> Inl e | Inr m \<Rightarrow> Inr [SendText m])
            else Inr []) of
        Inl e \<Rightarrow> Inl e
      | Inr o1 \<Rightarrow>
          (case (if mudp a \<and> send_text_message a
                 then (case format_meshtastic_message B aggregated_data of
                         Inl e \<Rightarrow> Inl e | Inr m \<Rightarrow> Inr [MudpText m])
                 else Inr []) of
             Inl e \<Rightarrow> Inl e
           | Inr o2 \<Rightarrow>
               (case (if \<not> meshtastic_interface a \<and> \<not> mudp a
                      then (case format_meshtastic_message B aggregated_data of
                              Inl e \<Rightarrow> Inl e | Inr m \<Rightarrow> Inr [Simulated m])
                      else Inr []) of
                  Inl e \<Rightarrow> Inl e
                | Inr o3 \<Rightarrow> Inr (o1 @ o2 @ o3))))"

text \<open>
  \<^verbatim>\<open>process_adsb_message\<close>, with the two dictionaries it mutates passed in and returned.
  The result is \<open>Inl e\<close> when the exception \<open>e\<close> leaves the function, otherwise the new
  store and the texts sent. \<^verbatim>\<open>hex_ident\<close> is never cast, so it is a string or \<^verbatim>\<open>None\<close>.
\<close>

definition process_adsb_message ::
  "'f builtins \<Rightarrow> args \<Rightarrow> 'f \<Rightarrow> string \<Rightarrow> 'f store \<Rightarrow> error + ('f store \<times> sent list)" where
  "process_adsb_message B a current_time message st =
     (case parse_adsb_message B message of
        Inl e \<Rightarrow> Inl e
      | Inr None \<Rightarrow> Inr (st, [])
      | Inr (Some parsed_data) \<Rightarrow>
          (case map_of parsed_data ''hex_ident'' of
             Some (PStr hex_ident) \<Rightarrow>
               (if hex_ident = [] then Inr (st, [])
                else
                  (let db = store_merged (aircraft_db st) hex_ident parsed_data;
                       aircraft = get_or_create db hex_ident;
                       st = st\<lparr>aircraft_db := db\<rparr>
                   in if reportable B aircraft then
                        (if rate_limit_passes B (last_sent_time st) hex_ident current_time
                              (update_interval a)
                         then (case send_to_sinks B a aircraft of
                                 Inl e \<Rightarrow> Inl e
                               | Inr outs \<Rightarrow>
                                   Inr (st\<lparr>last_sent_time :=
                                              (last_sent_time st)(hex_ident \<mapsto> current_time)\<rparr>,
                                        outs))
                         else Inr (st, []))
                      else Inr (st, [])))
           | _ \<Rightarrow> Inr (st, [])))"

section \<open>The stream reader\<close>

text \<open>
  \<^verbatim>\<open>connect_to_dump1090\<close> is a generator that talks to a socket. What the network does
  is the input of the model, a script with one entry per connection attempt: either the
  attempt raises \<^verbatim>\<open>socket.error\<close>, or it succeeds and the successive calls of
  \<^verbatim>\<open>recv\<close> return the listed (decoded) chunks, after which the next call either
  returns nothing (the peer has closed) or raises \<^verbatim>\<open>socket.error\<close>.
\<close>

datatype session_end = PeerCloses | SocketError

datatype session = ConnectFails | Session "string list" session_end

text \<open>What the generator does, in order: connect, yield a line, sleep, close the socket.\<close>

datatype event = Connect | Yield string | Sleep nat | Close

text \<open>
  How a run over a finite script ends: the generator has returned (\<open>Exhausted\<close>), or the
  script is used up while the generator, with the given count of attempts, is about to
  connect again.
\<close>

datatype outcome = Exhausted | Reconnecting nat

definition CONNECT_ATTEMPT_DELAY :: nat where
  "CONNECT_ATTEMPT_DELAY = 5"

definition CONNECT_ATTEMPT_LIMIT :: nat where
  "CONNECT_ATTEMPT_LIMIT = 10"

text \<open>
  The innermost loop,
  \<^verbatim>\<open>while '\n' in buffer: line, buffer = buffer.split('\n', 1); yield line\<close>:
  the lines yielded and the buffer left.
\<close>

function drain_lines :: "string \<Rightarrow> string list \<times> string" where
  "drain_lines buffer =
     (if CHR 0x0A \<in> set buffer then
        (let line = takeWhile (\<lambda>c. c \<noteq> CHR 0x0A) buffer;
             rest = tl (dropWhile (\<lambda>c. c \<noteq> CHR 0x0A) buffer)
         in (case drain_lines rest of (lines, buffer) \<Rightarrow> (line # lines, buffer)))
      else ([], buffer))"
  by pat_completeness auto
termination
proof -
  have shorter: "length (tl (dropWhile (\<lambda>c. c \<noteq> CHR 0x0A) buffer)) < length buffer"
    if nl: "CHR 0x0A \<in> set buffer" for buffer :: string
  proof -
    from nl have "dropWhile (\<lambda>c. c \<noteq> CHR 0x0A) buffer \<noteq> []"
      by (induction buffer) auto
    then have "length (tl (dropWhile (\<lambda>c. c \<noteq> CHR 0x0A) buffer))
                 < length (dropWhile (\<lambda>c. c \<noteq> CHR 0x0A) buffer)"
      by (cases "dropWhile (\<lambda>c. c \<noteq> CHR 0x0A) buffer") auto
    also have "\<dots> \<le> length buffer"
      by (rule length_dropWhile_le)
    finally show ?thesis .
  qed
  show ?thesis
    by (relation "measure length") (simp_all add: shorter del: length_tl)
qed

declare drain_lines.simps [simp del]

text \<open>
  The loop \<^verbatim>\<open>while True\<close> of one connected session, from a buffer and the chunks still
  to come: the lines yielded, and whether the session ended with \<^verbatim>\<open>socket.error\<close>.
  An empty chunk stands for a read that gives the empty string (a zero-length read, or
  bytes of which the decoder keeps nothing) and breaks out of the loop.
\<close>

fun read_loop :: "string \<Rightarrow> string list \<Rightarrow> session_end \<Rightarrow> string list \<times> bool" where
  "read_loop buffer [] e = ([], e = SocketError)"
| "read_loop buffer (data # chunks) e =
     (if data = [] then ([], False)
      else (case drain_lines (buffer @ data) of
              (lines, buffer) \<Rightarrow>
                (case read_loop buffer chunks e of
                   (later, failed) \<Rightarrow> (lines @ later, failed))))"

text \<open>
  The outer loop \<^verbatim>\<open>while conn_attempts < CONNECT_ATTEMPT_LIMIT\<close>, started with a count
  of attempts. The \<^verbatim>\<open>except\<close> clause counts the error and sleeps when the limit is not
  reached; the \<^verbatim>\<open>finally\<close> clause closes the socket on every way out of the \<^verbatim>\<open>try\<close>.
\<close>

fun reader :: "nat \<Rightarrow> session list \<Rightarrow> event list \<times> outcome" where
  "reader conn_attempts [] =
     (if conn_attempts < CONNECT_ATTEMPT_LIMIT then ([], Reconnecting conn_attempts)
      else ([], Exhausted))"
| "reader conn_attempts (s # script) =
     (if conn_attempts < CONNECT_ATTEMPT_LIMIT then
        (case s of
           ConnectFails \<Rightarrow>
             (let conn_attempts = conn_attempts + 1;
                  retry = (if conn_attempts < CONNECT_ATTEMPT_LIMIT
                           then [Sleep CONNECT_ATTEMPT_DELAY] else [])
              in (case reader conn_attempts script of
                    (later, out) \<Rightarrow> ([Connect] @ retry @ [Close] @ later, out)))
         | Session chunks e \<Rightarrow>
             (case read_loop [] chunks e of
                (lines, failed) \<Rightarrow>
                  (let conn_attempts = (if failed then conn_attempts + 1 else conn_attempts);
                       retry = (if failed \<and> conn_attempts < CONNECT_ATTEMPT_LIMIT
                                then [Sleep CONNECT_ATTEMPT_DELAY] else [])
                   in (case reader conn_attempts script of
                         (later, out) \<Rightarrow>
                           ([Connect] @ map Yield lines @ retry @ [Close] @ later, out)))))
      else ([], Exhausted))"

definition connect_to_dump1090 :: "session list \<Rightarrow> event list \<times> outcome" where
  "connect_to_dump1090 script = reader 0 script"

text \<open>
  A session of the script costs an attempt when it ends in \<^verbatim>\<open>socket.error\<close>: the
  connection fails, or a read raises before any zero-length read.
\<close>

fun session_fails :: "session \<Rightarrow> bool" where
  "session_fails ConnectFails = True"
| "session_fails (Session chunks e) = (e = SocketError \<and> list_all (\<lambda>data. data \<noteq> []) chunks)"

section \<open>An instance of the built-ins for the examples\<close>

text \<open>
  The general theorems below hold for every choice of the built-ins. The examples need one
  to compute with. In this instance a float is an IEEE 754 double, given by its exact value:
  \<open>Finite q\<close> is the double whose value is the rational \<open>q\<close> (\<open>Finite 0\<close> is \<^verbatim>\<open>0.0\<close>),
  \<open>NegZero\<close> is \<^verbatim>\<open>-0.0\<close>, and there are the two infinities and \<^verbatim>\<open>nan\<close>. Strings are read
  as CPython (3.11 and later) reads them, and every operation rounds to the nearest
  double, a tie to the even one.
\<close>

datatype float64 = Finite rat | NegZero | PosInf | NegInf | NaN

subsection \<open>Rounding to a double\<close>

text \<open>Powers with an integer exponent, by squaring.\<close>

function pow_int :: "rat \<Rightarrow> int \<Rightarrow> rat" where
  "pow_int b k =
     (if k \<le> 0 then 1
      else (let h = pow_int b (k div 2) in if even k then h * h else b * h * h))"
  by pat_completeness auto
termination
  by (relation "measure (\<lambda>(b, k). nat k)") simp_all

declare pow_int.simps [simp del]

definition pow2 :: "int \<Rightarrow> rat" where
  "pow2 k = (if 0 \<le> k then pow_int 2 k else 1 / pow_int 2 (- k))"

definition pow10 :: "int \<Rightarrow> rat" where
  "pow10 k = (if 0 \<le> k then pow_int 10 k else 1 / pow_int 10 (- k))"

text \<open>The number of binary digits of a positive integer.\<close>

function bit_length :: "int \<Rightarrow> int" where
  "bit_length n = (if n \<le> 0 then 0 else 1 + bit_length (n div 2))"
  by pat_completeness auto
termination
  by (relation "measure nat") simp_all

declare bit_length.simps [simp del]

text \<open>The largest \<open>k\<close> with \<open>2 ^ k \<le> q\<close>, for a positive \<open>q\<close>.\<close>

definition floor_log2 :: "rat \<Rightarrow> int" where
  "floor_log2 q =
     (case quotient_of q of
        (a, b) \<Rightarrow> (let k = bit_length a - bit_length b in if pow2 k \<le> q then k else k - 1))"

definition round_half_even :: "rat \<Rightarrow> int" where
  "round_half_even q =
     (let f = \<lfloor>q\<rfloor>; r = q - of_int f
      in if r > 1 / 2 then f + 1 else if r = 1 / 2 \<and> odd f then f + 1 else f)"

text \<open>
  The double nearest to a rational: 53 significant bits, the last bit no finer than
  \<open>2 ^ - 1074\<close>, and an infinity from \<open>2 ^ 1024\<close> on.
\<close>

definition to_double :: "rat \<Rightarrow> float64" where
  "to_double q =
     (if q = 0 then Finite 0
      else (let p = max (floor_log2 \<bar>q\<bar> - 52) (- 1074);
                v = of_int (round_half_even (\<bar>q\<bar> / pow2 p)) * pow2 p
            in if pow2 1024 \<le> v then (if q < 0 then NegInf else PosInf)
               else if v = 0 then (if q < 0 then NegZero else Finite 0)
               else Finite (if q < 0 then - v else v)))"

definition float_value :: "float64 \<Rightarrow> rat" where
  "float_value x = (case x of Finite q \<Rightarrow> q | _ \<Rightarrow> 0)"

subsection \<open>Operations on doubles\<close>

definition dec_neg :: "float64 \<Rightarrow> float64" where
  "dec_neg x =
     (case x of
        Finite q \<Rightarrow> if q = 0 then NegZero else Finite (- q)
      | NegZero \<Rightarrow> Finite 0
      | PosInf \<Rightarrow> NegInf
      | NegInf \<Rightarrow> PosInf
      | NaN \<Rightarrow> NaN)"

text \<open>\<^verbatim>\<open>x - y\<close>. A difference that is zero is \<^verbatim>\<open>0.0\<close>, except for \<^verbatim>\<open>-0.0 - 0.0\<close>.\<close>

definition dec_sub :: "float64 \<Rightarrow> float64 \<Rightarrow> float64" where
  "dec_sub x y =
     (if x = NaN \<or> y = NaN then NaN
      else if x = PosInf then (if y = PosInf then NaN else PosInf)
      else if x = NegInf then (if y = NegInf then NaN else NegInf)
      else if y = PosInf then NegInf
      else if y = NegInf then PosInf
      else if x = NegZero \<and> y = Finite 0 then NegZero
      else to_double (float_value x - float_value y))"

definition dec_gt_int :: "float64 \<Rightarrow> int \<Rightarrow> bool" where
  "dec_gt_int x i =
     (case x of
        Finite q \<Rightarrow> of_int i < q
      | NegZero \<Rightarrow> i < 0
      | PosInf \<Rightarrow> True
      | NegInf \<Rightarrow> False
      | NaN \<Rightarrow> False)"

definition dec_nonneg :: "float64 \<Rightarrow> bool" where
  "dec_nonneg x =
     (case x of
        Finite q \<Rightarrow> 0 \<le> q
      | NegZero \<Rightarrow> True
      | PosInf \<Rightarrow> True
      | NegInf \<Rightarrow> False
      | NaN \<Rightarrow> False)"

definition dec_truthy :: "float64 \<Rightarrow> bool" where
  "dec_truthy x =
     (case x of
        Finite q \<Rightarrow> q \<noteq> 0
      | NegZero \<Rightarrow> False
      | PosInf \<Rightarrow> True
      | NegInf \<Rightarrow> True
      | NaN \<Rightarrow> True)"

text \<open>\<^verbatim>\<open>float(i)\<close> raises \<^verbatim>\<open>OverflowError\<close> where the rounding would give an infinity.\<close>

definition dec_of_int :: "int \<Rightarrow> float64 option" where
  "dec_of_int i =
     (case to_double (of_int i) of
        PosInf \<Rightarrow> None
      | NegInf \<Rightarrow> None
      | x \<Rightarrow> Some x)"

subsection \<open>Reading numbers\<close>

text \<open>
  \<^verbatim>\<open>int\<close> and \<^verbatim>\<open>float\<close> skip less whitespace around a number than \<^verbatim>\<open>str.strip\<close> removes:
  of the code points below 256, the six ASCII ones and the two above 127, but not the
  separators 0x1C to 0x1F.
\<close>

definition is_number_space :: "char \<Rightarrow> bool" where
  "is_number_space c = (c \<in> set [CHR 0x09, CHR 0x0A, CHR 0x0B, CHR 0x0C, CHR 0x0D, CHR 0x20,
                                 CHR 0x85, CHR 0xA0])"

definition number_strip :: "string \<Rightarrow> string" where
  "number_strip s = rev (dropWhile is_number_space (rev (dropWhile is_number_space s)))"

definition is_digit :: "char \<Rightarrow> bool" where
  "is_digit c = (c \<in> set ''0123456789'')"

definition digit_val :: "char \<Rightarrow> int" where
  "digit_val c = of_char c - 48"

text \<open>Digits, with single underscores allowed between two digits.\<close>

fun digits_from :: "int \<Rightarrow> string \<Rightarrow> int option" where
  "digits_from acc [] = Some acc"
| "digits_from acc [c] = (if is_digit c then Some (10 * acc + digit_val c) else None)"
| "digits_from acc (c # d # cs) =
     (if is_digit c then digits_from (10 * acc + digit_val c) (d # cs)
      else if c = CHR ''_'' \<and> is_digit d then digits_from acc (d # cs)
      else None)"

definition dec_digits :: "string \<Rightarrow> int option" where
  "dec_digits s = (case s of [] \<Rightarrow> None | c # cs \<Rightarrow> if is_digit c then digits_from 0 s else None)"

definition dec_signed :: "string \<Rightarrow> int option" where
  "dec_signed s =
     (case s of
        [] \<Rightarrow> None
      | c # cs \<Rightarrow>
          if c = CHR ''-'' then map_option uminus (dec_digits cs)
          else if c = CHR ''+'' then dec_digits cs
          else dec_digits (c # cs))"

text \<open>\<^verbatim>\<open>int(s)\<close>, which refuses more than 4300 digits.\<close>

definition dec_int :: "string \<Rightarrow> int option" where
  "dec_int s =
     (if 4300 < int (length (filter is_digit s)) then None
      else dec_signed (number_strip s))"

definition lower :: "char \<Rightarrow> char" where
  "lower c =
     (if c \<in> set ''ABCDEFGHIJKLMNOPQRSTUVWXYZ'' then char_of (of_char c + (32 :: int)) else c)"

text \<open>The digits before and after the decimal point; one of the two parts may be empty.\<close>

definition dec_mantissa :: "string \<Rightarrow> rat option" where
  "dec_mantissa u =
     (let ip = takeWhile (\<lambda>c. c \<noteq> CHR ''.'') u;
          rest = dropWhile (\<lambda>c. c \<noteq> CHR ''.'') u
      in case rest of
           [] \<Rightarrow> map_option of_int (dec_digits ip)
         | dot # fp \<Rightarrow>
             if ip = [] \<and> fp = [] then None
             else (case (if ip = [] then Some 0 else dec_digits ip) of
                     None \<Rightarrow> None
                   | Some a \<Rightarrow>
                       (case (if fp = [] then Some 0 else dec_digits fp) of
                          None \<Rightarrow> None
                        | Some b \<Rightarrow>
                            Some (of_int a
                                  + of_int b / pow10 (int (length (filter is_digit fp)))))))"

text \<open>A mantissa, and an exponent after \<^verbatim>\<open>e\<close> or \<^verbatim>\<open>E\<close> when there is one.\<close>

definition dec_literal :: "string \<Rightarrow> rat option" where
  "dec_literal u =
     (let m = takeWhile (\<lambda>c. lower c \<noteq> CHR ''e'') u;
          rest = dropWhile (\<lambda>c. lower c \<noteq> CHR ''e'') u
      in case dec_mantissa m of
           None \<Rightarrow> None
         | Some q \<Rightarrow>
             (case rest of
                [] \<Rightarrow> Some q
              | e # ex \<Rightarrow> map_option (\<lambda>k. q * pow10 k) (dec_signed ex)))"

definition dec_unsigned :: "string \<Rightarrow> float64 option" where
  "dec_unsigned u =
     (let w = map lower u
      in if w = ''inf'' \<or> w = ''infinity'' then Some PosInf
         else if w = ''nan'' then Some NaN
         else map_option to_double (dec_literal u))"

text \<open>\<^verbatim>\<open>float(s)\<close>.\<close>

definition dec_float :: "string \<Rightarrow> float64 option" where
  "dec_float s =
     (case number_strip s of
        [] \<Rightarrow> None
      | c # cs \<Rightarrow>
          if c = CHR ''-'' then map_option dec_neg (dec_unsigned cs)
          else if c = CHR ''+'' then dec_unsigned cs
          else dec_unsigned (c # cs))"

subsection \<open>Writing doubles\<close>

text \<open>\<^verbatim>\<open>f"{abs(x):.2f}"\<close>: the exact value rounded to two decimals, a tie to even.\<close>

definition two_decimals :: "rat \<Rightarrow> string" where
  "two_decimals q =
     (let n = round_half_even (q * 100)
      in show_digits (n div 100) @ ''.'' @
         [char_of (48 + n div 10 mod 10), char_of (48 + n mod 10)])"

definition dec_abs_2f :: "float64 \<Rightarrow> string" where
  "dec_abs_2f x =
     (case x of
        Finite q \<Rightarrow> two_decimals \<bar>q\<bar>
      | NegZero \<Rightarrow> two_decimals 0
      | PosInf \<Rightarrow> ''inf''
      | NegInf \<Rightarrow> ''inf''
      | NaN \<Rightarrow> ''nan'')"

text \<open>
  \<^verbatim>\<open>str(x)\<close> is the shortest decimal that reads back as \<open>x\<close>, the nearest to \<open>x\<close> when there
  are two. \<open>repr_try v e10 k\<close> looks for one with \<open>k\<close> digits, where \<open>10 ^ e10 \<le> v\<close> is the
  leading power of ten, and gives the digits as an integer and the exponent of the last.
\<close>

definition floor_log10 :: "rat \<Rightarrow> int" where
  "floor_log10 q =
     (case quotient_of q of
        (a, b) \<Rightarrow>
          (let k = int (length (show_digits a)) - int (length (show_digits b))
           in if pow10 k \<le> q then k else k - 1))"

definition repr_try :: "rat \<Rightarrow> int \<Rightarrow> int \<Rightarrow> (int \<times> int) option" where
  "repr_try v e10 k =
     (let s = pow10 (k - 1 - e10);
          x = v * s;
          lo = \<lfloor>x\<rfloor>;
          hi = lo + 1;
          lo_reads = (to_double (of_int lo / s) = Finite v);
          hi_reads = (to_double (of_int hi / s) = Finite v);
          lo_nearer = (x - of_int lo < of_int hi - x \<or> (x - of_int lo = of_int hi - x \<and> even lo))
      in if lo_reads \<and> hi_reads then Some (if lo_nearer then lo else hi, e10 - k + 1)
         else if lo_reads then Some (lo, e10 - k + 1)
         else if hi_reads then Some (hi, e10 - k + 1)
         else None)"

fun repr_search :: "nat \<Rightarrow> rat \<Rightarrow> int \<Rightarrow> int \<Rightarrow> int \<times> int" where
  "repr_search 0 v e10 k = (round_half_even (v * pow10 (k - 1 - e10)), e10 - k + 1)"
| "repr_search (Suc fuel) v e10 k =
     (case repr_try v e10 k of
        Some r \<Rightarrow> r
      | None \<Rightarrow> repr_search fuel v e10 (k + 1))"

text \<open>
  The digits are written with a decimal point when the point falls within four zeros
  before them or sixteen places after their first, and with an exponent otherwise.
\<close>

definition repr_positive :: "rat \<Rightarrow> string" where
  "repr_positive v =
     (case repr_search 16 v (floor_log10 v) 1 of
        (d, e) \<Rightarrow>
          (let all_digits = show_digits d;
               ds = rev (dropWhile (\<lambda>c. c = CHR ''0'') (rev all_digits));
               n = int (length ds);
               decpt = int (length all_digits) + e
           in if - 4 < decpt \<and> decpt \<le> 16 then
                (if decpt \<le> 0 then ''0.'' @ replicate (nat (- decpt)) CHR ''0'' @ ds
                 else if n \<le> decpt then ds @ replicate (nat (decpt - n)) CHR ''0'' @ ''.0''
                 else take (nat decpt) ds @ ''.'' @ drop (nat decpt) ds)
              else take 1 ds @ (if 1 < n then ''.'' @ drop 1 ds else [])
                   @ ''e'' @ (if decpt - 1 < 0 then ''-'' else ''+'')
                   @ (if \<bar>decpt - 1\<bar> < 10 then ''0'' else []) @ show_digits \<bar>decpt - 1\<bar>))"

definition dec_str :: "float64 \<Rightarrow> string" where
  "dec_str x =
     (case x of
        Finite q \<Rightarrow>
          if q = 0 then ''0.0'' else (if q < 0 then ''-'' else []) @ repr_positive \<bar>q\<bar>
      | NegZero \<Rightarrow> ''-0.0''
      | PosInf \<Rightarrow> ''inf''
      | NegInf \<Rightarrow> ''-inf''
      | NaN \<Rightarrow> ''nan'')"

definition dec_builtins :: "float64 builtins" where
  "dec_builtins =
     \<lparr>py_int = dec_int, py_float = dec_float, float_truthy = dec_truthy,
      float_of_int = dec_of_int, float_zero = Finite 0, float_abs_2f = dec_abs_2f,
      float_nonneg = dec_nonneg, float_str = dec_str, float_sub = dec_sub,
      float_gt_int = dec_gt_int\<rparr>"

section \<open>Example inputs\<close>

text \<open>
  A position message without callsign, and the dictionary the parser returns for it. The
  double nearest to \<^verbatim>\<open>-0.1\<close> is \<open>- 3602879701896397 / 2 ^ 55\<close>.
\<close>

definition position_line :: string where
  "position_line = ''MSG,3,1,1,ABC123,1,,,,,,38000,,,51.5,-0.1,,,0,0,0,0''"

definition position_msg :: "float64 msg" where
  "position_msg =
     [(''message_type'', PStr ''MSG''), (''transmission_type'', PInt 3),
      (''session_id'', PStr ''1''), (''aircraft_id'', PStr ''1''),
      (''hex_ident'', PStr ''ABC123''), (''flight_id'', PStr ''1''),
      (''generated_date'', PNone), (''generated_time'', PNone),
      (''logged_date'', PNone), (''logged_time'', PNone),
      (''callsign'', PNone), (''altitude'', PInt 38000),
      (''ground_speed'', PNone), (''track'', PNone),
      (''lat'', PFloat (Finite (103 / 2))),
      (''lon'', PFloat (Finite (- (3602879701896397 / 36028797018963968)))),
      (''vertical_rate'', PNone), (''squawk'', PNone),
      (''alert'', PBool False), (''emergency'', PBool False),
      (''spi'', PBool False), (''is_on_ground'', PBool False)]"

text \<open>
  A store that knows the callsign and an older altitude of that aircraft and has sent its
  last report at time 1000; and the arguments with no sink and the default interval.
\<close>

definition known_store :: "float64 store" where
  "known_store =
     \<lparr>aircraft_db =
        [''ABC123'' \<mapsto> [''callsign'' \<mapsto> PStr ''BAW1 '', ''altitude'' \<mapsto> PInt 37000]],
      last_sent_time = [''ABC123'' \<mapsto> Finite 1000]\<rparr>"

definition empty_store :: "float64 store" where
  "empty_store = \<lparr>aircraft_db = Map.empty, last_sent_time = Map.empty\<rparr>"

definition no_sinks :: args where
  "no_sinks =
     \<lparr>meshtastic_interface = False, mudp = False, send_text_message = False,
      update_interval = 300\<rparr>"

section \<open>The merge\<close>

lemma merge_items_Nil: "merge_items a [] = a"
  by (simp add: merge_items_def)

lemma merge_items_Cons: "merge_items a (kv # r) = merge_items (merge_item a kv) r"
  by (simp add: merge_items_def)

lemma merge_items_absent_key: "k \<notin> fst ` set r \<Longrightarrow> merge_items a r k = a k"
  by (induction r arbitrary: a) (auto simp: merge_items_Cons merge_items_Nil merge_item_def)

text \<open>With distinct keys, as a dictionary has them, the loop acts on each key by itself.\<close>

lemma merge_items_lookup:
  "distinct (map fst r) \<Longrightarrow>
   merge_items a r k =
     (case map_of r k of
        None \<Rightarrow> a k
      | Some v \<Rightarrow> if v \<noteq> PNone \<and> v \<noteq> PStr [] then Some v else a k)"
proof (induction r arbitrary: a)
  case Nil
  then show ?case by (simp add: merge_items_Nil)
next
  case (Cons kv r)
  obtain k' v' where kv: "kv = (k', v')" by (cases kv)
  show ?case
  proof (cases "k = k'")
    case True
    with Cons.prems kv have "k \<notin> fst ` set r" by auto
    then have "merge_items (merge_item a kv) r k = merge_item a kv k"
      by (rule merge_items_absent_key)
    with True kv show ?thesis
      by (simp add: merge_items_Cons merge_item_def)
  next
    case False
    from Cons.prems have "distinct (map fst r)" by simp
    from Cons.IH [OF this, of "merge_item a kv"]
    have step: "merge_items (merge_item a kv) r k =
        (case map_of r k of None \<Rightarrow> merge_item a kv k
         | Some v \<Rightarrow> if v \<noteq> PNone \<and> v \<noteq> PStr [] then Some v else merge_item a kv k)" .
    from False kv have same: "merge_item a kv k = a k"
      by (simp add: merge_item_def)
    from False kv have "map_of (kv # r) k = map_of r k" by simp
    with step same show ?thesis
      by (simp add: merge_items_Cons split: option.split)
  qed
qed

text \<open>The loop overrides the record with the present entries, the later ones winning.\<close>

lemma merge_items_map_add:
  "merge_items a r =
     a ++ map_of (rev (filter (\<lambda>kv. snd kv \<noteq> PNone \<and> snd kv \<noteq> PStr []) r))"
proof (induction r arbitrary: a)
  case Nil
  then show ?case by (simp add: merge_items_Nil)
next
  case (Cons kv r)
  show ?case
  proof (cases "snd kv \<noteq> PNone \<and> snd kv \<noteq> PStr []")
    case True
    then have one: "merge_item a kv = a ++ map_of [kv]"
      by (cases kv) (simp add: merge_item_def)
    have "merge_items a (kv # r) = (a ++ map_of [kv]) ++
            map_of (rev (filter (\<lambda>kv. snd kv \<noteq> PNone \<and> snd kv \<noteq> PStr []) r))"
      by (simp only: merge_items_Cons Cons.IH one)
    also have "\<dots> = a ++ map_of
            (rev (filter (\<lambda>kv. snd kv \<noteq> PNone \<and> snd kv \<noteq> PStr []) r) @ [kv])"
      by (simp only: map_of_append map_add_assoc)
    finally show ?thesis
      using True by simp
  next
    case False
    then have "merge_item a kv = a"
      by (auto simp: merge_item_def)
    then have "merge_items a (kv # r) = merge_items a r"
      by (simp add: merge_items_Cons)
    with False show ?thesis
      by (auto simp: Cons.IH)
  qed
qed

lemma map_add_twice: "(a ++ m) ++ m = a ++ m"
  by (rule ext) (simp add: map_add_def split: option.splits)

lemma merge_items_twice: "merge_items (merge_items a r) r = merge_items a r"
  by (simp only: merge_items_map_add [of "a ++ _"] merge_items_map_add [of a] map_add_twice)

lemma get_or_create_upd: "get_or_create (db(h \<mapsto> a)) h = a"
  by (simp add: get_or_create_def)

lemma get_or_create_store_merged:
  "get_or_create (store_merged db h r) h = merge_items (get_or_create db h) r"
  by (simp add: store_merged_def get_or_create_upd)

text \<open>
  Claim C9. Merging is idempotent: merging the same parsed record a second time, into the
  record and into the store under the same \<^verbatim>\<open>hex_ident\<close>, changes nothing.
\<close>

theorem merge_idempotent:
  "merge_items (merge_items aircraft parsed_data) parsed_data = merge_items aircraft parsed_data
   \<and> store_merged (store_merged db hex_ident parsed_data) hex_ident parsed_data
       = store_merged db hex_ident parsed_data"
  by (simp add: store_merged_def get_or_create_upd merge_items_twice)

section \<open>The stream reader\<close>

lemma reader_at_limit: "CONNECT_ATTEMPT_LIMIT \<le> n \<Longrightarrow> reader n script = ([], Exhausted)"
  by (cases script) auto

lemma read_loop_failed:
  "snd (read_loop buffer chunks e) = (e = SocketError \<and> list_all (\<lambda>data. data \<noteq> []) chunks)"
proof (induction chunks arbitrary: buffer)
  case Nil
  then show ?case by simp
next
  case (Cons data chunks)
  obtain lines b where d: "drain_lines (buffer @ data) = (lines, b)"
    by (cases "drain_lines (buffer @ data)")
  obtain later failed where r: "read_loop b chunks e = (later, failed)"
    by (cases "read_loop b chunks e")
  from Cons.IH [of b] r
  have "failed = (e = SocketError \<and> list_all (\<lambda>data. data \<noteq> []) chunks)" by simp
  with d r show ?case by simp
qed

text \<open>A zero-length read ends the session like a close after the chunks before it.\<close>

lemma read_loop_zero_length:
  "read_loop buffer (chunks @ [] # unread) e = read_loop buffer chunks PeerCloses"
proof (induction chunks arbitrary: buffer)
  case Nil
  then show ?case by simp
next
  case (Cons data chunks)
  obtain lines b where d: "drain_lines (buffer @ data) = (lines, b)"
    by (cases "drain_lines (buffer @ data)")
  from Cons.IH [of b] d show ?case by simp
qed

lemma reader_ConnectFails:
  "n < CONNECT_ATTEMPT_LIMIT \<Longrightarrow>
   reader n (ConnectFails # script) =
     ([Connect] @ (if Suc n < CONNECT_ATTEMPT_LIMIT then [Sleep CONNECT_ATTEMPT_DELAY] else [])
        @ [Close] @ fst (reader (Suc n) script),
      snd (reader (Suc n) script))"
  by (simp add: Let_def split: prod.splits)

lemma reader_Session:
  "n < CONNECT_ATTEMPT_LIMIT \<Longrightarrow>
   reader n (Session chunks e # script) =
     (let failed = snd (read_loop [] chunks e); n' = (if failed then Suc n else n) in
      ([Connect] @ map Yield (fst (read_loop [] chunks e))
        @ (if failed \<and> n' < CONNECT_ATTEMPT_LIMIT then [Sleep CONNECT_ATTEMPT_DELAY] else [])
        @ [Close] @ fst (reader n' script),
      snd (reader n' script)))"
  by (simp add: Let_def split: prod.splits)

lemma reader_outcome:
  "snd (reader n script) =
     (if CONNECT_ATTEMPT_LIMIT \<le> n + length (filter session_fails script) then Exhausted
      else Reconnecting (n + length (filter session_fails script)))"
proof (induction script arbitrary: n)
  case Nil
  then show ?case by simp
next
  case (Cons s script)
  show ?case
  proof (cases "n < CONNECT_ATTEMPT_LIMIT")
    case False
    then show ?thesis by (simp add: reader_at_limit)
  next
    case True
    show ?thesis
    proof (cases s)
      case ConnectFails
      with True show ?thesis
        by (simp add: reader_ConnectFails Cons.IH del: reader.simps)
    next
      case (Session chunks e)
      with True show ?thesis
        by (simp add: reader_Session Cons.IH read_loop_failed Let_def del: reader.simps)
    qed
  qed
qed

text \<open>Once the generator has returned, what the network would do next is never asked.\<close>

lemma reader_exhausted_append:
  "snd (reader n script) = Exhausted \<Longrightarrow> reader n (script @ rest) = reader n script"
proof (induction script arbitrary: n)
  case Nil
  then show ?case by (simp add: reader_at_limit split: if_splits)
next
  case (Cons s script)
  show ?case
  proof (cases "n < CONNECT_ATTEMPT_LIMIT")
    case False
    then show ?thesis by (simp add: reader_at_limit)
  next
    case True
    show ?thesis
    proof (cases s)
      case ConnectFails
      with True Cons.prems have "snd (reader (Suc n) script) = Exhausted"
        by (simp add: reader_ConnectFails del: reader.simps)
      from Cons.IH [OF this] True ConnectFails show ?thesis
        by (simp add: reader_ConnectFails del: reader.simps)
    next
      case (Session chunks e)
      define n' where "n' = (if snd (read_loop [] chunks e) then Suc n else n)"
      with True Cons.prems Session have "snd (reader n' script) = Exhausted"
        by (simp add: reader_Session Let_def del: reader.simps)
      from Cons.IH [OF this] True Session n'_def show ?thesis
        by (simp add: reader_Session Let_def del: reader.simps)
    qed
  qed
qed

lemma reader_failures:
  "n + k < CONNECT_ATTEMPT_LIMIT \<Longrightarrow>
   reader n (replicate k ConnectFails @ rest) =
     (concat (replicate k [Connect, Sleep CONNECT_ATTEMPT_DELAY, Close]) @ fst (reader (n + k) rest),
      snd (reader (n + k) rest))"
proof (induction k arbitrary: n)
  case 0
  then show ?case by simp
next
  case (Suc k)
  then have "Suc n + k < CONNECT_ATTEMPT_LIMIT" by simp
  from Suc.IH [OF this] Suc.prems show ?case
    by (simp add: reader_ConnectFails del: reader.simps)
qed

lemma reader_clean_closes:
  "n < CONNECT_ATTEMPT_LIMIT \<Longrightarrow>
   reader n (replicate k (Session [] PeerCloses) @ rest) =
     (concat (replicate k [Connect, Close]) @ fst (reader n rest), snd (reader n rest))"
  by (induction k) (simp_all add: reader_Session del: reader.simps)

text \<open>
  Claim C6. When every attempt to connect fails, the generator returns after exactly ten
  failures: it sleeps five seconds after each of the first nine, does not sleep after the
  tenth, and never asks for what the script \<open>rest\<close> holds beyond it. After fewer than ten
  failures it has not returned and is about to connect again.
\<close>

theorem retry_limit_exhausts:
  "CONNECT_ATTEMPT_LIMIT = 10 \<and> CONNECT_ATTEMPT_DELAY = 5
   \<and> connect_to_dump1090 (replicate 10 ConnectFails @ rest) =
       (concat (replicate 9 [Connect, Sleep 5, Close]) @ [Connect, Close], Exhausted)
   \<and> (k < 10 \<longrightarrow>
        connect_to_dump1090 (replicate k ConnectFails) =
          (concat (replicate k [Connect, Sleep 5, Close]), Reconnecting k))"
proof -
  have "replicate 10 ConnectFails @ rest = replicate 9 ConnectFails @ (ConnectFails # rest)"
    by (simp add: numeral_eq_Suc replicate_app_Cons_same)
  moreover have "reader 9 (ConnectFails # rest) = ([Connect, Close], Exhausted)"
    by (simp add: reader_ConnectFails reader_at_limit CONNECT_ATTEMPT_LIMIT_def del: reader.simps)
  ultimately have ten: "connect_to_dump1090 (replicate 10 ConnectFails @ rest) =
       (concat (replicate 9 [Connect, Sleep 5, Close]) @ [Connect, Close], Exhausted)"
    using reader_failures [of 0 9 "ConnectFails # rest"]
    by (simp add: connect_to_dump1090_def CONNECT_ATTEMPT_LIMIT_def CONNECT_ATTEMPT_DELAY_def)
  have fewer: "connect_to_dump1090 (replicate k ConnectFails) =
          (concat (replicate k [Connect, Sleep 5, Close]), Reconnecting k)" if "k < 10"
    using that reader_failures [of 0 k "[]"]
    by (simp add: connect_to_dump1090_def CONNECT_ATTEMPT_LIMIT_def CONNECT_ATTEMPT_DELAY_def)
  from ten fewer show ?thesis
    by (simp add: CONNECT_ATTEMPT_LIMIT_def CONNECT_ATTEMPT_DELAY_def)
qed

theorem retry_limit_exhausts_witness:
  "connect_to_dump1090 (replicate 10 ConnectFails @ [Session [''MSG''] PeerCloses, ConnectFails]) =
     (concat (replicate 9 [Connect, Sleep 5, Close]) @ [Connect, Close], Exhausted)
   \<and> connect_to_dump1090 (replicate 9 ConnectFails) =
       (concat (replicate 9 [Connect, Sleep 5, Close]), Reconnecting 9)"
  using retry_limit_exhausts [of "[Session [''MSG''] PeerCloses, ConnectFails]" 9]
  by (simp add: CONNECT_ATTEMPT_LIMIT_def CONNECT_ATTEMPT_DELAY_def)

text \<open>
  Claim C5. A session that ends with a zero-length read, at the end of its chunks or at an
  empty chunk among them, is followed at once by the next attempt: the socket is closed,
  the count of attempts is the same \<open>n\<close> and there is no sleep. A failed attempt, in
  contrast, counts and sleeps. So a peer that accepts and closes at once is connected to
  again \<open>k\<close> times for every \<open>k\<close>, with the count still 0 and the generator not returned.
\<close>

theorem clean_close_reconnects_at_once:
  "(n < CONNECT_ATTEMPT_LIMIT \<longrightarrow>
      reader n (Session chunks PeerCloses # rest) =
        (Connect # map Yield (fst (read_loop [] chunks PeerCloses)) @ Close # fst (reader n rest),
         snd (reader n rest))
      \<and> reader n (Session (chunks @ [] # unread) e # rest) =
          reader n (Session chunks PeerCloses # rest))
   \<and> (Suc n < CONNECT_ATTEMPT_LIMIT \<longrightarrow>
        reader n (ConnectFails # rest) =
          (Connect # Sleep CONNECT_ATTEMPT_DELAY # Close # fst (reader (Suc n) rest),
           snd (reader (Suc n) rest)))
   \<and> connect_to_dump1090 (replicate k (Session [] PeerCloses)) =
       (concat (replicate k [Connect, Close]), Reconnecting 0)"
proof -
  have closes: "reader n (Session chunks PeerCloses # rest) =
        (Connect # map Yield (fst (read_loop [] chunks PeerCloses)) @ Close # fst (reader n rest),
         snd (reader n rest))" if "n < CONNECT_ATTEMPT_LIMIT"
    using that by (simp add: reader_Session read_loop_failed del: reader.simps)
  have zero: "reader n (Session (chunks @ [] # unread) e # rest) =
          reader n (Session chunks PeerCloses # rest)" if "n < CONNECT_ATTEMPT_LIMIT"
    using that by (simp add: reader_Session read_loop_zero_length del: reader.simps)
  have fails: "reader n (ConnectFails # rest) =
          (Connect # Sleep CONNECT_ATTEMPT_DELAY # Close # fst (reader (Suc n) rest),
           snd (reader (Suc n) rest))" if "Suc n < CONNECT_ATTEMPT_LIMIT"
    using that by (simp add: reader_ConnectFails del: reader.simps)
  have forever: "connect_to_dump1090 (replicate k (Session [] PeerCloses)) =
       (concat (replicate k [Connect, Close]), Reconnecting 0)"
    using reader_clean_closes [of 0 k "[]"]
    by (simp add: connect_to_dump1090_def CONNECT_ATTEMPT_LIMIT_def)
  from closes zero fails forever show ?thesis by blast
qed

theorem clean_close_reconnects_at_once_witness:
  "reader 9 (Session [''MSG,1'', [CHR 0x0A, CHR ''M'']] PeerCloses # [ConnectFails]) =
     ([Connect, Yield ''MSG,1'', Close, Connect, Close], Exhausted)
   \<and> reader 9 (Session ([''MSG,1'', [CHR 0x0A, CHR ''M'']] @ [] # [''never read'']) SocketError
                # [ConnectFails]) =
       reader 9 (Session [''MSG,1'', [CHR 0x0A, CHR ''M'']] PeerCloses # [ConnectFails])
   \<and> reader 8 (ConnectFails # [ConnectFails]) =
       ([Connect, Sleep 5, Close, Connect, Close], Exhausted)
   \<and> connect_to_dump1090 (replicate 1000 (Session [] PeerCloses)) =
       (concat (replicate 1000 [Connect, Close]), Reconnecting 0)"
proof -
  have a: "(9::nat) < CONNECT_ATTEMPT_LIMIT" and b: "Suc 8 < CONNECT_ATTEMPT_LIMIT"
    by (simp_all add: CONNECT_ATTEMPT_LIMIT_def)
  have l: "read_loop [] [''MSG,1'', [CHR 0x0A, CHR ''M'']] PeerCloses = ([''MSG,1''], False)"
    by code_simp
  have r9: "reader 9 [ConnectFails] = ([Connect, Close], Exhausted)"
    by code_simp
  from clean_close_reconnects_at_once
    [of 9 "[''MSG,1'', [CHR 0x0A, CHR ''M'']]" "[ConnectFails]" "[''never read'']" SocketError 1000]
    clean_close_reconnects_at_once [of 8 "[]" "[ConnectFails]" "[]" PeerCloses 0]
    a b l r9
  show ?thesis
    by (simp add: CONNECT_ATTEMPT_DELAY_def del: reader.simps)
qed

text \<open>
  Claim C10. The count of attempts is never reset: every session that ends in
  \<^verbatim>\<open>socket.error\<close>, at connect or at a read after a successful connect, adds one,
  whatever sessions lie between. The generator returns exactly when the count reaches
  ten, and from then on nothing more of the script is played.
\<close>

theorem attempts_accumulate:
  "snd (connect_to_dump1090 script) =
     (if 10 \<le> length (filter session_fails script) then Exhausted
      else Reconnecting (length (filter session_fails script)))
   \<and> session_fails (Session [''MSG''] SocketError)
   \<and> (10 \<le> length (filter session_fails script) \<longrightarrow>
        connect_to_dump1090 (script @ rest) = connect_to_dump1090 script)"
proof -
  have out: "snd (connect_to_dump1090 script) =
     (if 10 \<le> length (filter session_fails script) then Exhausted
      else Reconnecting (length (filter session_fails script)))"
    by (simp add: connect_to_dump1090_def reader_outcome CONNECT_ATTEMPT_LIMIT_def)
  have "connect_to_dump1090 (script @ rest) = connect_to_dump1090 script"
    if "10 \<le> length (filter session_fails script)"
  proof -
    from that out have "snd (reader 0 script) = Exhausted"
      by (simp add: connect_to_dump1090_def)
    then show ?thesis
      by (simp add: connect_to_dump1090_def reader_exhausted_append)
  qed
  with out show ?thesis by simp
qed

theorem attempts_accumulate_witness:
  "snd (connect_to_dump1090
          (concat (replicate 10 [Session [''MSG''] SocketError, Session [''MSG''] PeerCloses]))) =
     Exhausted
   \<and> snd (connect_to_dump1090
          (concat (replicate 9 [Session [''MSG''] SocketError, Session [''MSG''] PeerCloses]))) =
     Reconnecting 9
   \<and> connect_to_dump1090
       (concat (replicate 10 [Session [''MSG''] SocketError, Session [''MSG''] PeerCloses])
          @ [Session [''MSG''] PeerCloses]) =
     connect_to_dump1090
       (concat (replicate 10 [Session [''MSG''] SocketError, Session [''MSG''] PeerCloses]))"
proof -
  have ten: "length (filter session_fails
      (concat (replicate 10 [Session [''MSG''] SocketError, Session [''MSG''] PeerCloses]))) = 10"
    by code_simp
  have nine: "length (filter session_fails
      (concat (replicate 9 [Session [''MSG''] SocketError, Session [''MSG''] PeerCloses]))) = 9"
    by code_simp
  from attempts_accumulate
    [of "concat (replicate 10 [Session [''MSG''] SocketError, Session [''MSG''] PeerCloses])"
        "[Session [''MSG''] PeerCloses]"]
    attempts_accumulate
    [of "concat (replicate 9 [Session [''MSG''] SocketError, Session [''MSG''] PeerCloses])" "[]"]
    ten nine
  show ?thesis by simp
qed

section \<open>The parser\<close>

subsection \<open>Splitting and stripping\<close>

lemma split_on_not_Nil: "split_on c s \<noteq> []"
  by (induction s) (auto split: list.splits)

lemma length_split_on: "length (split_on c s) = Suc (length (filter (\<lambda>x. x = c) s))"
proof (induction s)
  case Nil
  then show ?case by simp
next
  case (Cons x s)
  then show ?case
    using split_on_not_Nil [of c s] by (cases "split_on c s") auto
qed

lemma split_on_prefix:
  "c \<notin> set a \<Longrightarrow> split_on c (a @ s) = (a @ hd (split_on c s)) # tl (split_on c s)"
proof (induction a)
  case Nil
  then show ?case using split_on_not_Nil [of c s] by simp
next
  case (Cons x a)
  then show ?case by auto
qed

lemma split_on_suffix:
  "c \<notin> set b \<Longrightarrow>
   split_on c (s @ b) = butlast (split_on c s) @ [last (split_on c s) @ b]"
proof (induction s)
  case Nil
  from split_on_prefix [OF Nil, of "[]"] show ?case by simp
next
  case (Cons x s)
  show ?case
  proof (cases "x = c")
    case True
    with Cons split_on_not_Nil [of c s] show ?thesis by simp
  next
    case False
    obtain p ps where ps: "split_on c s = p # ps"
      using split_on_not_Nil [of c s] by (cases "split_on c s") auto
    with Cons False show ?thesis
      by (cases ps) auto
  qed
qed

lemma comma_not_space: "\<not> is_space CHR '',''"
  by (simp add: is_space_def)

lemma py_strip_decomp:
  "\<exists>a b. s = a @ py_strip s @ b \<and> list_all is_space a \<and> list_all is_space b"
proof -
  let ?t = "dropWhile is_space s"
  let ?a = "takeWhile is_space s"
  let ?b = "rev (takeWhile is_space (rev ?t))"
  have "py_strip s @ ?b = rev (takeWhile is_space (rev ?t) @ dropWhile is_space (rev ?t))"
    by (simp only: py_strip_def rev_append)
  also have "\<dots> = rev (rev ?t)"
    by (simp only: takeWhile_dropWhile_id)
  finally have t: "?t = py_strip s @ ?b"
    by simp
  have "s = ?a @ ?t" by simp
  with t have "s = ?a @ py_strip s @ ?b" by simp
  moreover have "list_all is_space ?a"
    by (simp add: list_all_iff) (metis set_takeWhileD)
  moreover have "list_all is_space ?b"
    by (simp add: list_all_iff) (metis set_takeWhileD)
  ultimately show ?thesis by blast
qed

lemma spaces_no_comma: "list_all is_space a \<Longrightarrow> CHR '','' \<notin> set a"
  using comma_not_space by (auto simp: list_all_iff)

text \<open>Stripping the line changes only the first and the last piece.\<close>

lemma split_py_strip:
  obtains a b where "list_all is_space a" and "list_all is_space b"
    and "split_on CHR '','' s =
           butlast ((a @ hd (split_on CHR '','' (py_strip s))) # tl (split_on CHR '','' (py_strip s)))
           @ [last ((a @ hd (split_on CHR '','' (py_strip s))) # tl (split_on CHR '','' (py_strip s))) @ b]"
proof -
  from py_strip_decomp [of s] obtain a b
    where s: "s = a @ py_strip s @ b" and a: "list_all is_space a" and b: "list_all is_space b"
    by blast
  have "split_on CHR '','' ((a @ py_strip s) @ b) =
      butlast (split_on CHR '','' (a @ py_strip s)) @ [last (split_on CHR '','' (a @ py_strip s)) @ b]"
    by (rule split_on_suffix) (rule spaces_no_comma [OF b])
  also have "split_on CHR '','' (a @ py_strip s) =
      (a @ hd (split_on CHR '','' (py_strip s))) # tl (split_on CHR '','' (py_strip s))"
    by (rule split_on_prefix) (rule spaces_no_comma [OF a])
  finally have "split_on CHR '','' (a @ py_strip s @ b) =
           butlast ((a @ hd (split_on CHR '','' (py_strip s))) # tl (split_on CHR '','' (py_strip s)))
           @ [last ((a @ hd (split_on CHR '','' (py_strip s))) # tl (split_on CHR '','' (py_strip s))) @ b]"
    by simp
  with s a b that show ?thesis by metis
qed

lemma length_split_py_strip:
  "length (split_on CHR '','' (py_strip s)) = length (split_on CHR '','' s)"
proof -
  from py_strip_decomp [of s] obtain a b
    where s: "s = a @ py_strip s @ b" and a: "list_all is_space a" and b: "list_all is_space b"
    by blast
  from spaces_no_comma [OF a] have "filter (\<lambda>x. x = CHR '','') a = []"
    by (auto simp: filter_empty_conv)
  moreover from spaces_no_comma [OF b] have "filter (\<lambda>x. x = CHR '','') b = []"
    by (auto simp: filter_empty_conv)
  ultimately have "filter (\<lambda>x. x = CHR '','') (a @ py_strip s @ b) =
      filter (\<lambda>x. x = CHR '','') (py_strip s)"
    by simp
  with s have "filter (\<lambda>x. x = CHR '','') s = filter (\<lambda>x. x = CHR '','') (py_strip s)"
    by simp
  then show ?thesis
    by (simp add: length_split_on)
qed

lemma inner_split_py_strip:
  assumes "0 < i" and "Suc i < length (split_on CHR '','' s)"
  shows "split_on CHR '','' (py_strip s) ! i = split_on CHR '','' s ! i"
proof -
  obtain a b where eq: "split_on CHR '','' s =
           butlast ((a @ hd (split_on CHR '','' (py_strip s))) # tl (split_on CHR '','' (py_strip s)))
           @ [last ((a @ hd (split_on CHR '','' (py_strip s))) # tl (split_on CHR '','' (py_strip s))) @ b]"
    by (rule split_py_strip)
  obtain p ps where ps: "split_on CHR '','' (py_strip s) = p # ps"
    using split_on_not_Nil [of "CHR '',''" "py_strip s"]
    by (cases "split_on CHR '','' (py_strip s)") auto
  from assms length_split_py_strip [of s] ps have i: "i < length ps" by simp
  then have ne: "ps \<noteq> []" by auto
  from assms(1) obtain j where j: "i = Suc j" by (cases i) auto
  with i have jlt: "j < length (butlast ps)" by simp
  from eq ps ne have "split_on CHR '','' s = ((a @ p) # butlast ps) @ [last ps @ b]"
    by simp
  then have "split_on CHR '','' s ! i = (((a @ p) # butlast ps) @ [last ps @ b]) ! i"
    by simp
  also from j jlt have "\<dots> = butlast ps ! j"
    by (simp add: nth_append)
  also from jlt have "\<dots> = ps ! j"
    by (simp add: nth_butlast)
  finally show ?thesis using ps j by simp
qed

lemma first_split_py_strip:
  assumes "hd (split_on CHR '','' s) = ''MSG''" and "1 < length (split_on CHR '','' s)"
  shows "hd (split_on CHR '','' (py_strip s)) = ''MSG''"
proof -
  obtain a b where a: "list_all is_space a" and eq: "split_on CHR '','' s =
           butlast ((a @ hd (split_on CHR '','' (py_strip s))) # tl (split_on CHR '','' (py_strip s)))
           @ [last ((a @ hd (split_on CHR '','' (py_strip s))) # tl (split_on CHR '','' (py_strip s))) @ b]"
    by (rule split_py_strip)
  obtain p ps where ps: "split_on CHR '','' (py_strip s) = p # ps"
    using split_on_not_Nil [of "CHR '',''" "py_strip s"]
    by (cases "split_on CHR '','' (py_strip s)") auto
  from assms(2) length_split_py_strip [of s] ps have "ps \<noteq> []" by auto
  with eq ps have "hd (split_on CHR '','' s) = a @ p" by simp
  with assms(1) have ap: "a @ p = ''MSG''" by simp
  have "a = []"
  proof (cases a)
    case Nil
    then show ?thesis .
  next
    case (Cons x xs)
    with ap have "x = CHR ''M''" by simp
    with a Cons show ?thesis by (simp add: is_space_def)
  qed
  with ap ps show ?thesis by simp
qed

subsection \<open>The casts keep the keys and touch one key each\<close>

lemma map_of_Some_key: "map_of m key = Some v \<Longrightarrow> key \<in> fst ` set m"
  by (auto dest: map_of_SomeD intro: rev_image_eqI)

lemma cast_int_keys: "map fst (cast_int B key m) = map fst m"
  by (auto simp: cast_int_def update_keys dest: map_of_Some_key
      split: option.splits pyval.splits)

lemma cast_float_keys: "map fst (cast_float B key m) = map fst m"
  by (auto simp: cast_float_def update_keys dest: map_of_Some_key
      split: option.splits pyval.splits)

lemma cast_bool_keys: "cast_bool B key m = Inr m' \<Longrightarrow> map fst m' = map fst m"
  by (auto simp: cast_bool_def update_keys dest: map_of_Some_key
      split: option.splits pyval.splits if_splits)

lemma cast_int_other: "k \<noteq> key \<Longrightarrow> map_of (cast_int B key m) k = map_of m k"
  by (auto simp: cast_int_def update_conv' split: option.splits pyval.splits)

lemma cast_float_other: "k \<noteq> key \<Longrightarrow> map_of (cast_float B key m) k = map_of m k"
  by (auto simp: cast_float_def update_conv' split: option.splits pyval.splits)

lemma cast_bool_other:
  "cast_bool B key m = Inr m' \<Longrightarrow> k \<noteq> key \<Longrightarrow> map_of m' k = map_of m k"
  by (auto simp: cast_bool_def update_conv' split: option.splits pyval.splits if_splits)

lemma fold_cast_int_keys: "map fst (fold (cast_int B) keys m) = map fst m"
  by (induction keys arbitrary: m) (simp_all add: cast_int_keys)

lemma fold_cast_float_keys: "map fst (fold (cast_float B) keys m) = map fst m"
  by (induction keys arbitrary: m) (simp_all add: cast_float_keys)

lemma cast_bools_keys: "cast_bools B keys m = Inr m' \<Longrightarrow> map fst m' = map fst m"
proof (induction keys arbitrary: m)
  case Nil
  then show ?case by simp
next
  case (Cons key keys)
  then show ?case
    by (auto split: sum.splits dest: cast_bool_keys)
qed

lemma fold_cast_int_other:
  "k \<notin> set keys \<Longrightarrow> map_of (fold (cast_int B) keys m) k = map_of m k"
  by (induction keys arbitrary: m) (simp_all add: cast_int_other)

lemma fold_cast_float_other:
  "k \<notin> set keys \<Longrightarrow> map_of (fold (cast_float B) keys m) k = map_of m k"
  by (induction keys arbitrary: m) (simp_all add: cast_float_other)

lemma cast_bools_other:
  "cast_bools B keys m = Inr m' \<Longrightarrow> k \<notin> set keys \<Longrightarrow> map_of m' k = map_of m k"
proof (induction keys arbitrary: m)
  case Nil
  then show ?case by simp
next
  case (Cons key keys)
  then show ?case
    by (auto split: sum.splits dest: cast_bool_other)
qed

text \<open>The third loop returns when each of its fields is empty or a numeral.\<close>

lemma cast_bool_returns:
  "map_of m key = Some (if f \<noteq> [] then PStr f else PNone) \<Longrightarrow>
   f = [] \<or> py_int B f \<noteq> None \<Longrightarrow> \<exists>m'. cast_bool B key m = Inr m'"
  by (auto simp: cast_bool_def)

lemma cast_bools_returns:
  "distinct keys \<Longrightarrow>
   list_all (\<lambda>key. \<exists>f. map_of m key = Some (if f \<noteq> [] then PStr f else PNone)
                        \<and> (f = [] \<or> py_int B f \<noteq> None)) keys \<Longrightarrow>
   \<exists>m'. cast_bools B keys m = Inr m'"
proof (induction keys arbitrary: m)
  case Nil
  then show ?case by simp
next
  case (Cons key keys)
  from Cons.prems(2) obtain f
    where "map_of m key = Some (if f \<noteq> [] then PStr f else PNone)"
      and "f = [] \<or> py_int B f \<noteq> None"
    by auto
  then obtain m1 where m1: "cast_bool B key m = Inr m1"
    using cast_bool_returns by blast
  have "list_all (\<lambda>key. \<exists>f. map_of m1 key = Some (if f \<noteq> [] then PStr f else PNone)
                        \<and> (f = [] \<or> py_int B f \<noteq> None)) keys"
    unfolding list_all_iff
  proof
    fix k assume k: "k \<in> set keys"
    with Cons.prems(1) have "k \<noteq> key" by auto
    from cast_bool_other [OF m1 this] have "map_of m1 k = map_of m k" .
    with k Cons.prems(2) show "\<exists>f. map_of m1 k = Some (if f \<noteq> [] then PStr f else PNone)
                        \<and> (f = [] \<or> py_int B f \<noteq> None)"
      by (auto simp: list_all_iff)
  qed
  with Cons.IH [of m1] Cons.prems(1) obtain m' where "cast_bools B keys m1 = Inr m'"
    by auto
  with m1 show ?case by simp
qed

subsection \<open>What the parser returns\<close>

lemma parse_22:
  assumes "length (split_on CHR '','' (py_strip line)) = 22"
    and "hd (split_on CHR '','' (py_strip line)) = ''MSG''"
  shows "parse_adsb_message B line =
     (case cast_bools B [''alert'', ''emergency'', ''spi'', ''is_on_ground'']
             (fold (cast_float B) [''lat'', ''lon'']
               (fold (cast_int B)
                  [''transmission_type'', ''altitude'', ''ground_speed'', ''track'',
                   ''vertical_rate'', ''squawk'']
                  (zip SBS1_FIELDS
                     (map (\<lambda>val. if val \<noteq> [] then PStr val else PNone)
                        (split_on CHR '','' (py_strip line)))))) of
        Inl e \<Rightarrow> Inl e
      | Inr msg_data \<Rightarrow> Inr (Some msg_data))"
  using assms unfolding parse_adsb_message_def Let_def by (simp del: fold.simps cast_bools.simps)

lemma parse_other:
  "\<not> (length (split_on CHR '','' (py_strip line)) = 22
      \<and> hd (split_on CHR '','' (py_strip line)) = ''MSG'') \<Longrightarrow>
   parse_adsb_message B line = Inr None"
  unfolding parse_adsb_message_def Let_def by auto

lemma length_SBS1_FIELDS: "length SBS1_FIELDS = 22"
  by (simp add: SBS1_FIELDS_def)

lemma distinct_SBS1_FIELDS: "distinct SBS1_FIELDS"
  by (simp add: SBS1_FIELDS_def)

lemma parse_Some_22:
  assumes "parse_adsb_message B line = Inr (Some m)"
  shows "length (split_on CHR '','' (py_strip line)) = 22
         \<and> hd (split_on CHR '','' (py_strip line)) = ''MSG''"
  using assms parse_other [of line B] by auto

lemma parse_keys:
  assumes "parse_adsb_message B line = Inr (Some m)"
  shows "map fst m = SBS1_FIELDS"
proof -
  from parse_Some_22 [OF assms]
  have len: "length (split_on CHR '','' (py_strip line)) = 22"
    and msg: "hd (split_on CHR '','' (py_strip line)) = ''MSG''" by simp_all
  from assms parse_22 [OF len msg, of B] have
    b: "cast_bools B [''alert'', ''emergency'', ''spi'', ''is_on_ground'']
          (fold (cast_float B) [''lat'', ''lon'']
             (fold (cast_int B) [''transmission_type'', ''altitude'', ''ground_speed'', ''track'',
                   ''vertical_rate'', ''squawk'']
                (zip SBS1_FIELDS
                     (map (\<lambda>val. if val \<noteq> [] then PStr val else PNone)
                        (split_on CHR '','' (py_strip line)))))) = Inr m"
    by (auto split: sum.splits simp del: fold.simps cast_bools.simps)
  from cast_bools_keys [OF b] len show ?thesis
    by (simp add: fold_cast_float_keys fold_cast_int_keys length_SBS1_FIELDS del: fold.simps)
qed

text \<open>
  A key outside the three loops keeps the value the dictionary was built with: the field
  at its position, or \<^verbatim>\<open>None\<close> when the field is empty.
\<close>

lemma parse_uncast_field:
  assumes "parse_adsb_message B line = Inr (Some m)"
    and "i < 22"
    and "SBS1_FIELDS ! i \<notin> set [''transmission_type'', ''altitude'', ''ground_speed'', ''track'',
                   ''vertical_rate'', ''squawk'', ''lat'', ''lon'',
                   ''alert'', ''emergency'', ''spi'', ''is_on_ground'']"
  shows "map_of m (SBS1_FIELDS ! i) =
           Some (if split_on CHR '','' (py_strip line) ! i \<noteq> []
                 then PStr (split_on CHR '','' (py_strip line) ! i) else PNone)"
proof -
  let ?parts = "split_on CHR '','' (py_strip line)"
  let ?d = "zip SBS1_FIELDS (map (\<lambda>val. if val \<noteq> [] then PStr val else PNone) ?parts)"
  from parse_Some_22 [OF assms(1)]
  have len: "length ?parts = 22" and msg: "hd ?parts = ''MSG''" by simp_all
  from assms(1) parse_22 [OF len msg, of B] have
    b: "cast_bools B [''alert'', ''emergency'', ''spi'', ''is_on_ground'']
          (fold (cast_float B) [''lat'', ''lon'']
             (fold (cast_int B) [''transmission_type'', ''altitude'', ''ground_speed'', ''track'',
                   ''vertical_rate'', ''squawk''] ?d)) = Inr m"
    by (auto split: sum.splits simp del: fold.simps cast_bools.simps)
  from assms(3) have "map_of m (SBS1_FIELDS ! i) = map_of ?d (SBS1_FIELDS ! i)"
    by (subst cast_bools_other [OF b], simp, subst fold_cast_float_other, simp,
        subst fold_cast_int_other, simp_all)
  also from len assms(2) have "\<dots> = Some (map (\<lambda>val. if val \<noteq> [] then PStr val else PNone) ?parts ! i)"
    by (intro map_of_zip_nth) (simp_all add: length_SBS1_FIELDS distinct_SBS1_FIELDS)
  finally show ?thesis using len assms(2) by simp
qed

subsection \<open>Claims about the parser and the merge\<close>

lemma position_line_parsed:
  "parse_adsb_message dec_builtins position_line = Inr (Some position_msg)"
  by code_simp

lemma SBS1_FIELDS_4: "SBS1_FIELDS ! 4 = ''hex_ident''"
  by (simp add: SBS1_FIELDS_def)

text \<open>
  Claim C4. When a parsed record is merged into the record stored under a
  \<^verbatim>\<open>hex_ident\<close>, every key of the result has the incoming value where that value is
  present (neither \<^verbatim>\<open>None\<close> nor the empty string), and the value stored before where
  the incoming value is absent or the key does not occur.
\<close>

theorem merge_last_write_wins:
  assumes "parse_adsb_message B line = Inr (Some incoming)"
  shows "get_or_create (store_merged db hex_ident incoming) hex_ident key =
     (case map_of incoming key of
        None \<Rightarrow> get_or_create db hex_ident key
      | Some v \<Rightarrow>
          if v \<noteq> PNone \<and> v \<noteq> PStr [] then Some v else get_or_create db hex_ident key)"
proof -
  from parse_keys [OF assms] have "distinct (map fst incoming)"
    by (simp add: distinct_SBS1_FIELDS)
  then show ?thesis
    by (simp only: get_or_create_store_merged merge_items_lookup)
qed

theorem merge_last_write_wins_witness:
  "get_or_create (store_merged (aircraft_db known_store) ''ABC123'' position_msg) ''ABC123''
     ''altitude'' = Some (PInt 38000)
   \<and> get_or_create (store_merged (aircraft_db known_store) ''ABC123'' position_msg) ''ABC123''
       ''callsign'' = Some (PStr ''BAW1 '')
   \<and> get_or_create (store_merged (aircraft_db known_store) ''ABC123'' position_msg) ''ABC123''
       ''squawk'' = None"
  using merge_last_write_wins [OF position_line_parsed, of "aircraft_db known_store" "''ABC123''" "''altitude''"]
    merge_last_write_wins [OF position_line_parsed, of "aircraft_db known_store" "''ABC123''" "''callsign''"]
    merge_last_write_wins [OF position_line_parsed, of "aircraft_db known_store" "''ABC123''" "''squawk''"]
  by (simp add: position_msg_def known_store_def get_or_create_def)

text \<open>
  Claim C7, as amended. The parser strips the line before it splits it, so the first
  field is compared without the whitespace that leads the line. It returns \<^verbatim>\<open>None\<close>
  whenever the line does not split into exactly 22 fields or that first field is not
  \<^verbatim>\<open>MSG\<close>, and it returns a record only for the other lines.
\<close>

theorem parse_rejects_other_lines:
  "(length (split_on CHR '','' line) \<noteq> 22 \<or> hd (split_on CHR '','' (py_strip line)) \<noteq> ''MSG''
      \<longrightarrow> parse_adsb_message B line = Inr None)
   \<and> (parse_adsb_message B line = Inr (Some m)
      \<longrightarrow> length (split_on CHR '','' line) = 22
          \<and> hd (split_on CHR '','' (py_strip line)) = ''MSG'')"
  using parse_other [of line B] parse_Some_22 [of B line m] length_split_py_strip [of line]
  by auto

theorem parse_rejects_other_lines_witness:
  "parse_adsb_message dec_builtins ''MSG,3,1,1,ABC123,1,,,,,,38000,,,51.5,-0.1,,,0,0,0'' = Inr None
   \<and> parse_adsb_message dec_builtins ''STA,3,1,1,ABC123,1,,,,,,38000,,,51.5,-0.1,,,0,0,0,0'' = Inr None
   \<and> length (split_on CHR '','' position_line) = 22
   \<and> hd (split_on CHR '','' (py_strip position_line)) = ''MSG''"
proof -
  have short: "length (split_on CHR '','' ''MSG,3,1,1,ABC123,1,,,,,,38000,,,51.5,-0.1,,,0,0,0'') = 21"
    by code_simp
  have sta: "hd (split_on CHR '','' (py_strip ''STA,3,1,1,ABC123,1,,,,,,38000,,,51.5,-0.1,,,0,0,0,0'')) = ''STA''"
    by code_simp
  from parse_rejects_other_lines
         [of "''MSG,3,1,1,ABC123,1,,,,,,38000,,,51.5,-0.1,,,0,0,0''" dec_builtins position_msg]
       parse_rejects_other_lines
         [of "''STA,3,1,1,ABC123,1,,,,,,38000,,,51.5,-0.1,,,0,0,0,0''" dec_builtins position_msg]
       parse_rejects_other_lines [of position_line dec_builtins position_msg]
       short sta position_line_parsed
  show ?thesis by simp
qed

text \<open>
  Without the stripping the statement fails: the first field of a line that begins with a
  space is not \<^verbatim>\<open>MSG\<close>, and the parser returns a record for it.
\<close>

theorem leading_space_counterexample:
  "hd (split_on CHR '','' '' MSG,3,1,1,ABC123,1,,,,,,38000,,,51.5,-0.1,,,0,0,0,0'') = '' MSG''
   \<and> parse_adsb_message dec_builtins '' MSG,3,1,1,ABC123,1,,,,,,38000,,,51.5,-0.1,,,0,0,0,0''
       = Inr (Some position_msg)"
  by code_simp

text \<open>
  Claim C1. The loop over the boolean fields has no \<^verbatim>\<open>try\<close>: a line of 22 fields with
  first field \<^verbatim>\<open>MSG\<close> whose \<^verbatim>\<open>alert\<close> field is not a numeral makes the parser raise
  \<^verbatim>\<open>ValueError\<close>, and the exception leaves \<^verbatim>\<open>process_adsb_message\<close> as well. A
  malformed integer or float field is kept as text, as the other two loops catch the error.
\<close>

theorem boolean_cast_raises:
  "length (split_on CHR '','' ''MSG,3,1,1,ABC123,1,,,,,,38000,,,51.5,-0.1,,,x,0,0,0'') = 22
   \<and> hd (split_on CHR '','' ''MSG,3,1,1,ABC123,1,,,,,,38000,,,51.5,-0.1,,,x,0,0,0'') = ''MSG''
   \<and> parse_adsb_message dec_builtins ''MSG,3,1,1,ABC123,1,,,,,,38000,,,51.5,-0.1,,,x,0,0,0''
       = Inl ValueError
   \<and> process_adsb_message dec_builtins no_sinks (Finite 1000)
       ''MSG,3,1,1,ABC123,1,,,,,,38000,,,51.5,-0.1,,,x,0,0,0'' empty_store = Inl ValueError
   \<and> map_option (\<lambda>m. (map_of m ''altitude'', map_of m ''lat''))
       (projr (parse_adsb_message dec_builtins
          ''MSG,3,1,1,ABC123,1,,,,,,abc,,,north,-0.1,,,1,0,0,0''))
       = Some (Some (PStr ''abc''), Some (PStr ''north''))"
proof -
  have shape: "length (split_on CHR '','' ''MSG,3,1,1,ABC123,1,,,,,,38000,,,51.5,-0.1,,,x,0,0,0'') = 22
     \<and> hd (split_on CHR '','' ''MSG,3,1,1,ABC123,1,,,,,,38000,,,51.5,-0.1,,,x,0,0,0'') = ''MSG''"
    by code_simp
  have raises: "parse_adsb_message dec_builtins
      ''MSG,3,1,1,ABC123,1,,,,,,38000,,,51.5,-0.1,,,x,0,0,0'' = Inl ValueError"
    by code_simp
  have kept: "map_option (\<lambda>m. (map_of m ''altitude'', map_of m ''lat''))
       (projr (parse_adsb_message dec_builtins
          ''MSG,3,1,1,ABC123,1,,,,,,abc,,,north,-0.1,,,1,0,0,0''))
       = Some (Some (PStr ''abc''), Some (PStr ''north''))"
    by code_simp
  from shape raises kept show ?thesis
    by (simp add: process_adsb_message_def)
qed

lemma zip_field:
  "length parts = 22 \<Longrightarrow> i < 22 \<Longrightarrow>
   map_of (zip SBS1_FIELDS (map f parts)) (SBS1_FIELDS ! i) = Some (f (parts ! i))"
  using map_of_zip_nth [of SBS1_FIELDS "map f parts" i]
  by (simp add: length_SBS1_FIELDS distinct_SBS1_FIELDS)

text \<open>The parser returns a record when no boolean field fails its cast.\<close>

lemma parse_returns:
  assumes len: "length (split_on CHR '','' (py_strip line)) = 22"
    and msg: "hd (split_on CHR '','' (py_strip line)) = ''MSG''"
    and ok: "list_all (\<lambda>i. split_on CHR '','' (py_strip line) ! i = []
                          \<or> py_int B (split_on CHR '','' (py_strip line) ! i) \<noteq> None)
               [18, 19, 20, 21]"
  shows "\<exists>m. parse_adsb_message B line = Inr (Some m)"
proof -
  let ?parts = "split_on CHR '','' (py_strip line)"
  let ?norm = "\<lambda>val. if val \<noteq> [] then PStr val else PNone"
  let ?d = "fold (cast_float B) [''lat'', ''lon'']
             (fold (cast_int B) [''transmission_type'', ''altitude'', ''ground_speed'', ''track'',
                   ''vertical_rate'', ''squawk''] (zip SBS1_FIELDS (map ?norm ?parts)))"
  have field: "map_of ?d (SBS1_FIELDS ! i) = Some (?norm (?parts ! i))"
    if "i < 22" and "18 \<le> i" for i
  proof -
    from that have "i = 18 \<or> i = 19 \<or> i = 20 \<or> i = 21" by arith
    then have nf: "SBS1_FIELDS ! i \<notin> set [''lat'', ''lon'']"
      and ni: "SBS1_FIELDS ! i \<notin> set [''transmission_type'', ''altitude'', ''ground_speed'',
              ''track'', ''vertical_rate'', ''squawk'']"
      by (auto simp: SBS1_FIELDS_def)
    have "map_of ?d (SBS1_FIELDS ! i) =
        map_of (fold (cast_int B) [''transmission_type'', ''altitude'', ''ground_speed'', ''track'',
                   ''vertical_rate'', ''squawk''] (zip SBS1_FIELDS (map ?norm ?parts)))
          (SBS1_FIELDS ! i)"
      by (rule fold_cast_float_other [OF nf])
    also have "\<dots> = map_of (zip SBS1_FIELDS (map ?norm ?parts)) (SBS1_FIELDS ! i)"
      by (rule fold_cast_int_other [OF ni])
    also have "\<dots> = Some (?norm (?parts ! i))"
      by (rule zip_field [OF len that(1)])
    finally show ?thesis .
  qed
  have keys: "[''alert'', ''emergency'', ''spi'', ''is_on_ground''] =
      [SBS1_FIELDS ! 18, SBS1_FIELDS ! 19, SBS1_FIELDS ! 20, SBS1_FIELDS ! 21]"
    by (simp add: SBS1_FIELDS_def)
  have "list_all (\<lambda>key. \<exists>f. map_of ?d key = Some (if f \<noteq> [] then PStr f else PNone)
                        \<and> (f = [] \<or> py_int B f \<noteq> None))
          [SBS1_FIELDS ! 18, SBS1_FIELDS ! 19, SBS1_FIELDS ! 20, SBS1_FIELDS ! 21]"
    using ok field [of 18] field [of 19] field [of 20] field [of 21]
    by (simp del: fold.simps) blast
  moreover have "distinct [SBS1_FIELDS ! 18, SBS1_FIELDS ! 19, SBS1_FIELDS ! 20, SBS1_FIELDS ! 21]"
    by (simp add: SBS1_FIELDS_def)
  ultimately obtain m where
    "cast_bools B [SBS1_FIELDS ! 18, SBS1_FIELDS ! 19, SBS1_FIELDS ! 20, SBS1_FIELDS ! 21] ?d = Inr m"
    using cast_bools_returns by blast
  with keys parse_22 [OF len msg, of B] show ?thesis
    by (simp del: fold.simps cast_bools.simps)
qed

text \<open>
  Claim C8, as amended. For a line of 22 fields whose first field is \<^verbatim>\<open>MSG\<close>, the record
  the parser returns has as \<^verbatim>\<open>hex_ident\<close> the fifth field when that field is not empty,
  and \<^verbatim>\<open>None\<close> when it is empty; and the parser does return a record when each of the
  four boolean fields is empty or is accepted by \<^verbatim>\<open>int\<close>.
\<close>

theorem hex_ident_from_fifth_field:
  assumes "length (split_on CHR '','' line) = 22"
    and "hd (split_on CHR '','' line) = ''MSG''"
  shows "(parse_adsb_message B line = Inr (Some m) \<longrightarrow>
            map_of m ''hex_ident'' =
              Some (if split_on CHR '','' line ! 4 = [] then PNone
                    else PStr (split_on CHR '','' line ! 4)))
         \<and> (list_all (\<lambda>i. split_on CHR '','' (py_strip line) ! i = []
                          \<or> py_int B (split_on CHR '','' (py_strip line) ! i) \<noteq> None)
               [18, 19, 20, 21] \<longrightarrow>
            (\<exists>m. parse_adsb_message B line = Inr (Some m)))"
proof -
  from assms have len: "length (split_on CHR '','' (py_strip line)) = 22"
    by (simp add: length_split_py_strip)
  from assms have msg: "hd (split_on CHR '','' (py_strip line)) = ''MSG''"
    by (intro first_split_py_strip) simp_all
  from assms(1) have fifth: "split_on CHR '','' (py_strip line) ! 4 = split_on CHR '','' line ! 4"
    by (intro inner_split_py_strip) simp_all
  have "map_of m ''hex_ident'' =
              Some (if split_on CHR '','' line ! 4 = [] then PNone
                    else PStr (split_on CHR '','' line ! 4))"
    if "parse_adsb_message B line = Inr (Some m)"
    using parse_uncast_field [OF that, of 4] fifth
    by (simp add: SBS1_FIELDS_def)
  with parse_returns [OF len msg, of B] show ?thesis by blast
qed

theorem hex_ident_from_fifth_field_witness:
  "map_of position_msg ''hex_ident'' = Some (PStr ''ABC123'')
   \<and> (\<exists>m. parse_adsb_message dec_builtins position_line = Inr (Some m))"
proof -
  have a: "length (split_on CHR '','' position_line) = 22"
    and b: "hd (split_on CHR '','' position_line) = ''MSG''"
    and c: "split_on CHR '','' position_line ! 4 = ''ABC123''"
    and d: "list_all (\<lambda>i. split_on CHR '','' (py_strip position_line) ! i = []
                          \<or> py_int dec_builtins (split_on CHR '','' (py_strip position_line) ! i) \<noteq> None)
               [18, 19, 20, 21]"
    by code_simp+
  from hex_ident_from_fifth_field [OF a b, of dec_builtins position_msg] position_line_parsed c d
  show ?thesis by simp
qed

text \<open>
  With an empty fifth field the \<^verbatim>\<open>hex_ident\<close> of the record is \<^verbatim>\<open>None\<close>, which is not
  the field.
\<close>

theorem empty_hex_ident_counterexample:
  "length (split_on CHR '','' ''MSG,3,1,1,,1,,,,,,38000,,,51.5,-0.1,,,0,0,0,0'') = 22
   \<and> hd (split_on CHR '','' ''MSG,3,1,1,,1,,,,,,38000,,,51.5,-0.1,,,0,0,0,0'') = ''MSG''
   \<and> split_on CHR '','' ''MSG,3,1,1,,1,,,,,,38000,,,51.5,-0.1,,,0,0,0,0'' ! 4 = ''''
   \<and> map_option (\<lambda>m. map_of m ''hex_ident'')
       (projr (parse_adsb_message dec_builtins ''MSG,3,1,1,,1,,,,,,38000,,,51.5,-0.1,,,0,0,0,0''))
       = Some (Some PNone)"
  by code_simp

section \<open>The dispatch policy\<close>





text \<open>
  Claim C2. The test of line 138 is the truthiness of the two values, and the float
  \<^verbatim>\<open>0.0\<close> is falsy: an aircraft whose callsign is known and whose latitude has been set
  by the field \<^verbatim>\<open>0.0\<close> holds both fields, is not reportable, and nothing is sent for it.
  The same message with latitude \<^verbatim>\<open>0.1\<close> is sent.
\<close>

theorem equator_not_reportable:
  "map_sum id
     (\<lambda>(st, outs). (outs, get_or_create (aircraft_db st) ''ABC123'' ''lat'',
                    get_or_create (aircraft_db st) ''ABC123'' ''callsign'',
                    reportable dec_builtins (get_or_create (aircraft_db st) ''ABC123''),
                    last_sent_time st ''ABC123''))
     (process_adsb_message dec_builtins no_sinks (Finite 1000)
        ''MSG,3,1,1,ABC123,1,,,,,BAW1,38000,,,0.0,-0.1,,,0,0,0,0'' empty_store)
     = Inr ([], Some (PFloat (Finite 0)), Some (PStr ''BAW1''), False, None)
   \<and> map_sum id
     (\<lambda>(st, outs). (outs, get_or_create (aircraft_db st) ''ABC123'' ''lat'',
                    get_or_create (aircraft_db st) ''ABC123'' ''callsign'',
                    reportable dec_builtins (get_or_create (aircraft_db st) ''ABC123''),
                    last_sent_time st ''ABC123''))
     (process_adsb_message dec_builtins no_sinks (Finite 1000)
        ''MSG,3,1,1,ABC123,1,,,,,BAW1,38000,,,0.1,-0.1,,,0,0,0,0'' empty_store)
     = Inr ([Simulated ''BAW1 38000ft 0.10N/0.10W''],
            Some (PFloat (Finite (3602879701896397 / 36028797018963968))),
            Some (PStr ''BAW1''), True, Some (Finite 1000))"
  by code_simp

end
